theory Spec2Isabelle
  imports Main "HOL-Library.Sublist"
begin

section \<open>Python values and strings\<close>

text \<open>
  The tool arguments arrive as a decoded JSON object. A Python string is a HOL string
  whose characters are the code points 0..255. \<open>VOther\<close> stands for a value of any
  other type the decoder can produce (a number with a fraction, a nested object): the
  program only ever tests such a value for truth and renders it, so it carries its truth
  value and its rendering (for these types \<open>str\<close> and \<open>repr\<close> agree).
\<close>

datatype pyval =
    VNone
  | VBool bool
  | VInt int
  | VStr string
  | VList "pyval list"
  | VOther bool string

text \<open>A dict keeps its keys in insertion order: an association list with distinct keys.\<close>

type_synonym dict = "(string \<times> pyval) list"

definition dict_get :: "dict \<Rightarrow> string \<Rightarrow> pyval option" where
  "dict_get d k = map_of d k"

text \<open>\<open>d[k] = v\<close>: an existing key keeps its position, a new key goes last.\<close>

fun dict_set :: "dict \<Rightarrow> string \<Rightarrow> pyval \<Rightarrow> dict" where
  "dict_set [] k v = [(k, v)]"
| "dict_set ((k', v') # d) k v =
     (if k' = k then (k, v) # d else (k', v') # dict_set d k v)"

text \<open>Truth value of a Python object, as \<open>if x:\<close> tests it.\<close>

fun truthy :: "pyval \<Rightarrow> bool" where
  "truthy VNone = False"
| "truthy (VBool b) = b"
| "truthy (VInt i) = (i \<noteq> 0)"
| "truthy (VStr s) = (s \<noteq> [])"
| "truthy (VList xs) = (xs \<noteq> [])"
| "truthy (VOther t r) = t"

subsection \<open>Rendering: \<open>str\<close> and \<open>repr\<close>\<close>

definition digit_char :: "nat \<Rightarrow> char" where
  "digit_char d = char_of (48 + d)"

fun show_nat :: "nat \<Rightarrow> string" where
  "show_nat n = (if n < 10 then [digit_char n] else show_nat (n div 10) @ [digit_char (n mod 10)])"

declare show_nat.simps [simp del]

definition show_int :: "int \<Rightarrow> string" where
  "show_int i = (if i < 0 then CHR ''-'' # show_nat (nat (- i)) else show_nat (nat i))"

definition hex_char :: "nat \<Rightarrow> char" where
  "hex_char d = (if d < 10 then char_of (48 + d) else char_of (87 + d))"

text \<open>
  \<open>repr\<close> of a string: single quotes, unless the string has a single quote and no
  double quote; backslash, the quote in use, tab, newline and carriage return are
  escaped, every other non-printable code point below 256 is written \<open>\xNN\<close>.
\<close>

definition printable :: "char \<Rightarrow> bool" where
  "printable c = (let n = (of_char c :: nat) in 32 \<le> n \<and> n < 127 \<or> 161 \<le> n \<and> n \<noteq> 173)"

definition repr_char :: "char \<Rightarrow> char \<Rightarrow> string" where
  "repr_char q c =
     (if c = CHR 0x5C \<or> c = q then [CHR 0x5C, c]
      else if c = CHR 0x09 then [CHR 0x5C, CHR ''t'']
      else if c = CHR 0x0A then [CHR 0x5C, CHR ''n'']
      else if c = CHR 0x0D then [CHR 0x5C, CHR ''r'']
      else if printable c then [c]
      else [CHR 0x5C, CHR ''x'', hex_char (of_char c div 16), hex_char (of_char c mod 16)])"

definition repr_str :: "string \<Rightarrow> string" where
  "repr_str s =
     (let q = (if CHR 0x27 \<in> set s \<and> CHR 0x22 \<notin> set s then CHR 0x22 else CHR 0x27)
      in q # concat (map (repr_char q) s) @ [q])"

text \<open>\<open>sep.join(xs)\<close>\<close>

fun join :: "string \<Rightarrow> string list \<Rightarrow> string" where
  "join sep [] = []"
| "join sep [x] = x"
| "join sep (x # y # ys) = x @ sep @ join sep (y # ys)"

fun py_repr :: "pyval \<Rightarrow> string" where
  "py_repr VNone = ''None''"
| "py_repr (VBool b) = (if b then ''True'' else ''False'')"
| "py_repr (VInt i) = show_int i"
| "py_repr (VStr s) = repr_str s"
| "py_repr (VList xs) = ''['' @ join '', '' (map py_repr xs) @ '']''"
| "py_repr (VOther t r) = r"

text \<open>What an f-string writes for \<open>{v}\<close>: \<open>str(v)\<close>.\<close>

definition py_str :: "pyval \<Rightarrow> string" where
  "py_str v = (case v of VStr s \<Rightarrow> s | _ \<Rightarrow> py_repr v)"

subsection \<open>\<open>strip\<close>, \<open>split\<close>, \<open>startswith\<close>\<close>

definition is_space :: "char \<Rightarrow> bool" where
  "is_space c = (let n = (of_char c :: nat) in
     9 \<le> n \<and> n \<le> 13 \<or> 28 \<le> n \<and> n \<le> 32 \<or> n = 133 \<or> n = 160)"

definition strip :: "string \<Rightarrow> string" where
  "strip s = rev (dropWhile is_space (rev (dropWhile is_space s)))"

text \<open>\<open>s.split("\n")\<close>: the empty string gives one empty line.\<close>

fun split_nl :: "string \<Rightarrow> string list" where
  "split_nl [] = [[]]"
| "split_nl (c # cs) =
     (if c = CHR 0x0A then [] # split_nl cs
      else (case split_nl cs of [] \<Rightarrow> [[c]] | l # ls \<Rightarrow> (c # l) # ls))"

definition startswith :: "string \<Rightarrow> string \<Rightarrow> bool" where
  "startswith s p = prefix p s"

section \<open>The server\<close>

definition BASE_URL :: string where
  "BASE_URL = ''http://snaptron.cs.jhu.edu''"

subsection \<open>Query builder\<close>

text \<open>
  The parts one item of \<open>params\<close> appends: a list gives one part per element, any
  other value one part unless it is \<open>None\<close> or the empty string.
\<close>

definition item_parts :: "string \<times> pyval \<Rightarrow> string list" where
  "item_parts kv =
     (case kv of (key, value) \<Rightarrow>
        (case value of
           VList vs \<Rightarrow> map (\<lambda>v. key @ ''='' @ py_str v) vs
         | _ \<Rightarrow> (if value \<noteq> VNone \<and> value \<noteq> VStr [] then [key @ ''='' @ py_str value] else [])))"

text \<open>The loop over \<open>params.items()\<close>, with the list \<open>parts\<close> as accumulator.\<close>

fun collect_parts :: "dict \<Rightarrow> string list \<Rightarrow> string list" where
  "collect_parts [] parts = parts"
| "collect_parts (kv # items) parts = collect_parts items (parts @ item_parts kv)"

definition build_url :: "pyval \<Rightarrow> pyval \<Rightarrow> dict \<Rightarrow> string" where
  "build_url compilation endpoint params =
     (let base = BASE_URL @ ''/'' @ py_str compilation @ ''/'' @ py_str endpoint;
          parts = collect_parts params []
      in if parts \<noteq> [] then base @ ''?'' @ join ''&'' parts else base)"

subsection \<open>Transport client\<close>

text \<open>
  The HTTP client library and the remote service are outside the program: \<open>http_get\<close>
  says what one GET of a URL ends in (a response with its status and body, a failed
  request, or any other fault of the client), and \<open>json_indent\<close> what parsing and
  re-serialising a body with indentation ends in.
\<close>

datatype http_outcome =
    Response nat string
  | RequestFailed string
  | ClientFault string

datatype json_outcome =
    Formatted string
  | DecodeError
  | JsonFault string

record env =
  http_get :: "string \<Rightarrow> http_outcome"
  json_indent :: "string \<Rightarrow> json_outcome"

text \<open>
  The exceptions that can travel through \<open>call_tool\<close>. \<open>HTTPStatusError\<close> carries the
  status and the body of its response, \<open>RequestError\<close> and \<open>OtherException\<close> (any other
  subclass of \<open>Exception\<close>) carry their \<open>str(e)\<close>, \<open>KeyError\<close> the missing key.
\<close>

datatype exn =
    HTTPStatusError nat string
  | RequestError string
  | KeyError string
  | OtherException string

text \<open>
  The state is the list of URLs requested so far, oldest first. \<open>raise_for_status\<close>
  raises for every status outside 200..299.
\<close>

type_synonym requests = "string list"

definition fetch :: "env \<Rightarrow> string \<Rightarrow> requests \<Rightarrow> (exn + string) \<times> requests" where
  "fetch env url reqs =
     (case http_get env url of
        RequestFailed m \<Rightarrow> (Inl (RequestError m), reqs @ [url])
      | ClientFault m \<Rightarrow> (Inl (OtherException m), reqs @ [url])
      | Response st body \<Rightarrow>
          (if 200 \<le> st \<and> st \<le> 299 then (Inr body, reqs @ [url])
           else (Inl (HTTPStatusError st body), reqs @ [url])))"

subsection \<open>Dispatcher\<close>

definition scalar_keys :: "string list" where
  "scalar_keys =
     [''regions'', ''ids'', ''sids'', ''contains'', ''exact'', ''either'', ''header'', ''fields'']"

fun copy_scalars :: "dict \<Rightarrow> string list \<Rightarrow> dict \<Rightarrow> dict" where
  "copy_scalars args [] params = params"
| "copy_scalars args (key # keys) params =
     copy_scalars args keys
       (case dict_get args key of
          None \<Rightarrow> params
        | Some v \<Rightarrow> if v \<noteq> VNone then dict_set params key v else params)"

definition copy_filter :: "dict \<Rightarrow> string \<Rightarrow> dict \<Rightarrow> dict" where
  "copy_filter args key params =
     (case dict_get args key of
        None \<Rightarrow> params
      | Some v \<Rightarrow> if truthy v then dict_set params key v else params)"

definition extract_params :: "dict \<Rightarrow> dict" where
  "extract_params args =
     copy_filter args ''sfilter'' (copy_filter args ''rfilter'' (copy_scalars args scalar_keys []))"

datatype TextContent = TextContent (type_of: string) (text_of: string)

text \<open>\<open>d[k]\<close> raises \<open>KeyError\<close> for a missing key.\<close>

definition subscript :: "dict \<Rightarrow> string \<Rightarrow> exn + pyval" where
  "subscript d k = (case dict_get d k of None \<Rightarrow> Inl (KeyError k) | Some v \<Rightarrow> Inr v)"

text \<open>
  The count of the record-returning tools: the response is stripped as a whole, split on
  newline, and the lines that are not empty and do not start with the marker are counted.
\<close>

definition count_records :: "string \<Rightarrow> nat" where
  "count_records result =
     (let lines = split_nl (strip result)
      in length [l \<leftarrow> lines. l \<noteq> [] \<and> \<not> startswith l ''DataSource''])"

definition list_compilations :: "env \<Rightarrow> requests \<Rightarrow> (exn + TextContent list) \<times> requests" where
  "list_compilations env reqs =
     (let url = BASE_URL @ ''/snaptron/registry''
      in case fetch env url reqs of
           (Inl e, reqs') \<Rightarrow> (Inl e, reqs')
         | (Inr result, reqs') \<Rightarrow>
             (case json_indent env result of
                Formatted formatted \<Rightarrow>
                  (Inr [TextContent ''text''
                     (''Snaptron Compilation Registry:\<newline>\<newline>'' @ formatted)], reqs')
              | DecodeError \<Rightarrow>
                  (Inr [TextContent ''text'' (''Registry response:\<newline>'' @ result)], reqs')
              | JsonFault m \<Rightarrow> (Inl (OtherException m), reqs')))"

text \<open>
  The branches of the three record-returning tools are the same text in the source but
  for the endpoint.
\<close>

definition query_records ::
  "env \<Rightarrow> string \<Rightarrow> dict \<Rightarrow> requests \<Rightarrow> (exn + TextContent list) \<times> requests" where
  "query_records env endpoint arguments reqs =
     (case subscript arguments ''compilation'' of
        Inl e \<Rightarrow> (Inl e, reqs)
      | Inr compilation \<Rightarrow>
          (let params = extract_params arguments;
               url = build_url compilation (VStr endpoint) params
           in case fetch env url reqs of
                (Inl e, reqs') \<Rightarrow> (Inl e, reqs')
              | (Inr result, reqs') \<Rightarrow>
                  (let count = count_records result
                   in (Inr [TextContent ''text''
                         (''Query URL: '' @ url @ ''\<newline>\<newline>Results ('' @ show_nat count
                          @ '' records):\<newline>\<newline>'' @ result)], reqs'))))"

definition get_result_count ::
  "env \<Rightarrow> dict \<Rightarrow> requests \<Rightarrow> (exn + TextContent list) \<times> requests" where
  "get_result_count env arguments reqs =
     (case subscript arguments ''compilation'' of
        Inl e \<Rightarrow> (Inl e, reqs)
      | Inr compilation \<Rightarrow>
          (let params = extract_params arguments;
               params = dict_set params ''fields'' (VStr ''rc'');
               url = build_url compilation (VStr ''snaptron'') params
           in case fetch env url reqs of
                (Inl e, reqs') \<Rightarrow> (Inl e, reqs')
              | (Inr result, reqs') \<Rightarrow>
                  (Inr [TextContent ''text''
                     (''Query URL: '' @ url @ ''\<newline>\<newline>Result count response:\<newline>''
                      @ result)], reqs')))"

definition build_url_tool :: "dict \<Rightarrow> requests \<Rightarrow> (exn + TextContent list) \<times> requests" where
  "build_url_tool arguments reqs =
     (case subscript arguments ''compilation'' of
        Inl e \<Rightarrow> (Inl e, reqs)
      | Inr compilation \<Rightarrow>
          (let endpoint = (case dict_get arguments ''endpoint'' of
                             None \<Rightarrow> VStr ''snaptron'' | Some v \<Rightarrow> v);
               params = extract_params arguments;
               url = build_url compilation endpoint params
           in (Inr [TextContent ''text''
                 (''Built Snaptron URL:\<newline>'' @ url
                  @ ''\<newline>\<newline>You can test this with:\<newline>  curl -L ''
                  @ [CHR 0x22] @ url @ [CHR 0x22])], reqs)))"

text \<open>The body of the \<open>try\<close>.\<close>

definition dispatch ::
  "env \<Rightarrow> string \<Rightarrow> dict \<Rightarrow> requests \<Rightarrow> (exn + TextContent list) \<times> requests" where
  "dispatch env name arguments reqs =
     (if name = ''snaptron_list_compilations'' then list_compilations env reqs
      else if name = ''snaptron_query_junctions'' then query_records env ''snaptron'' arguments reqs
      else if name = ''snaptron_query_genes'' then query_records env ''genes'' arguments reqs
      else if name = ''snaptron_query_samples'' then query_records env ''samples'' arguments reqs
      else if name = ''snaptron_get_result_count'' then get_result_count env arguments reqs
      else if name = ''snaptron_build_url'' then build_url_tool arguments reqs
      else (Inr [TextContent ''text'' (''Unknown tool: '' @ name)], reqs))"

text \<open>
  The three \<open>except\<close> clauses, in the order of the source; the last one takes every other
  exception. \<open>str(e)\<close> of a \<open>KeyError\<close> is the \<open>repr\<close> of the key.
\<close>

definition handle :: "exn \<Rightarrow> exn + TextContent list" where
  "handle e =
     (case e of
        HTTPStatusError st body \<Rightarrow>
          Inr [TextContent ''text'' (''HTTP error '' @ show_nat st @ '': '' @ body)]
      | RequestError m \<Rightarrow> Inr [TextContent ''text'' (''Request error: '' @ m)]
      | KeyError k \<Rightarrow> Inr [TextContent ''text'' (''Error: '' @ repr_str k)]
      | OtherException m \<Rightarrow> Inr [TextContent ''text'' (''Error: '' @ m)])"

definition call_tool ::
  "env \<Rightarrow> string \<Rightarrow> dict \<Rightarrow> requests \<Rightarrow> (exn + TextContent list) \<times> requests" where
  "call_tool env name arguments reqs =
     (case dispatch env name arguments reqs of
        (Inr r, reqs') \<Rightarrow> (Inr r, reqs')
      | (Inl e, reqs') \<Rightarrow> (handle e, reqs'))"

text \<open>The six names of the tool catalog.\<close>

definition tool_names :: "string list" where
  "tool_names =
     [''snaptron_query_junctions'', ''snaptron_query_genes'', ''snaptron_query_samples'',
      ''snaptron_list_compilations'', ''snaptron_get_result_count'', ''snaptron_build_url'']"

section \<open>Views used by the properties\<close>

text \<open>
  The query string as a list of (key, rendered value) pairs: what \<open>item_parts\<close> appends,
  before key and value are joined by \<open>=\<close>.
\<close>

definition item_pairs :: "string \<times> pyval \<Rightarrow> (string \<times> string) list" where
  "item_pairs kv =
     (case kv of (key, value) \<Rightarrow>
        (case value of
           VList vs \<Rightarrow> map (\<lambda>v. (key, py_str v)) vs
         | _ \<Rightarrow> (if value \<noteq> VNone \<and> value \<noteq> VStr [] then [(key, py_str value)] else [])))"

definition query_pairs :: "dict \<Rightarrow> (string \<times> string) list" where
  "query_pairs params = concat (map item_pairs params)"

definition render_pair :: "string \<times> string \<Rightarrow> string" where
  "render_pair p = fst p @ ''='' @ snd p"

text \<open>The URLs requested during an invocation that started in \<open>reqs\<close> and ended in \<open>reqs'\<close>.\<close>

definition requested :: "requests \<Rightarrow> requests \<Rightarrow> string list" where
  "requested reqs reqs' = drop (length reqs) reqs'"

text \<open>
  The summarizer as the specification words it: split on newline, trim each line, count
  the lines that are not empty and do not start with the marker.
\<close>

definition spec_summarize :: "string \<Rightarrow> nat" where
  "spec_summarize txt =
     length [l \<leftarrow> map strip (split_nl txt). l \<noteq> [] \<and> \<not> startswith l ''DataSource'']"

text \<open>A stub of the remote service: every request gets the same status and body.\<close>

definition stub_reply :: "nat \<Rightarrow> string \<Rightarrow> string \<Rightarrow> http_outcome" where
  "stub_reply st body url = Response st body"

definition no_json :: "string \<Rightarrow> json_outcome" where
  "no_json s = DecodeError"

definition stub_env :: "nat \<Rightarrow> string \<Rightarrow> env" where
  "stub_env st body = \<lparr>http_get = stub_reply st body, json_indent = no_json\<rparr>"

text \<open>
  What \<open>extract_params\<close> copies for one key: a scalar key when present and not \<open>None\<close>,
  a filter key when present and true.
\<close>

definition scalar_item :: "dict \<Rightarrow> string \<Rightarrow> dict" where
  "scalar_item args key =
     (case dict_get args key of None \<Rightarrow> [] | Some v \<Rightarrow> if v \<noteq> VNone then [(key, v)] else [])"

definition filter_item :: "dict \<Rightarrow> string \<Rightarrow> dict" where
  "filter_item args key =
     (case dict_get args key of None \<Rightarrow> [] | Some v \<Rightarrow> if truthy v then [(key, v)] else [])"

definition key_order :: "string list" where
  "key_order = scalar_keys @ [''rfilter'', ''sfilter'']"

text \<open>The lines the count keeps.\<close>

definition is_record :: "string \<Rightarrow> bool" where
  "is_record l = (l \<noteq> [] \<and> \<not> startswith l ''DataSource'')"

section \<open>Dictionaries\<close>

lemma dict_set_new: "k \<notin> fst ` set d \<Longrightarrow> dict_set d k v = d @ [(k, v)]"
  by (induction d) auto

lemma dict_set_old: "k \<in> fst ` set d \<Longrightarrow> map fst (dict_set d k v) = map fst d"
  by (induction d) force+

lemma dict_set_keys:
  "map fst (dict_set d k v) = (if k \<in> fst ` set d then map fst d else map fst d @ [k])"
  by (simp add: dict_set_old dict_set_new)

lemma dict_set_distinct: "distinct (map fst d) \<Longrightarrow> distinct (map fst (dict_set d k v))"
  by (simp add: dict_set_keys)

lemma dict_get_set: "dict_get (dict_set d k v) k' = (if k' = k then Some v else dict_get d k')"
  by (induction d) (auto simp: dict_get_def)

lemma dict_set_mem: "(k, v) \<in> set (dict_set d k v)"
  by (induction d) auto

section \<open>The query builder\<close>

lemma item_parts_pairs: "item_parts kv = map render_pair (item_pairs kv)"
  by (cases kv) (simp add: item_parts_def item_pairs_def render_pair_def split: pyval.split)

lemma collect_parts_acc: "collect_parts params parts = parts @ concat (map item_parts params)"
  by (induction params arbitrary: parts) simp_all

lemma collect_parts_pairs: "collect_parts params [] = map render_pair (query_pairs params)"
  by (induction params) (simp_all add: collect_parts_acc query_pairs_def item_parts_pairs)

lemma collect_parts_append:
  "collect_parts (xs @ ys) [] = collect_parts xs [] @ collect_parts ys []"
  by (simp add: collect_parts_acc)

lemma item_pairs_key: "p \<in> set (item_pairs (k, v)) \<Longrightarrow> fst p = k"
  by (auto simp: item_pairs_def split: pyval.splits if_splits)

lemma query_pairs_keys: "fst ` set (query_pairs params) \<subseteq> fst ` set params"
  by (force simp: query_pairs_def dest: item_pairs_key)

lemma filter_item_pairs_other:
  "k' \<noteq> k \<Longrightarrow> [p \<leftarrow> item_pairs (k', v). fst p = k] = []"
  by (auto simp: filter_empty_conv dest: item_pairs_key)

lemma filter_item_pairs_same:
  "[p \<leftarrow> item_pairs (k, v). fst p = k] = item_pairs (k, v)"
  by (auto simp: filter_id_conv dest: item_pairs_key)

lemma filter_query_pairs_absent:
  "k \<notin> fst ` set params \<Longrightarrow> [p \<leftarrow> query_pairs params. fst p = k] = []"
  using query_pairs_keys [of params] by (auto simp: filter_empty_conv)

lemma query_pairs_append: "query_pairs (xs @ ys) = query_pairs xs @ query_pairs ys"
  by (simp add: query_pairs_def)

lemma query_pairs_Cons: "query_pairs (kv # ys) = item_pairs kv @ query_pairs ys"
  by (simp add: query_pairs_def)

lemma filter_query_pairs_key:
  assumes "distinct (map fst params)" and "(k, v) \<in> set params"
  shows "[p \<leftarrow> query_pairs params. fst p = k] = item_pairs (k, v)"
proof -
  from assms(2) obtain before after where split: "params = before @ (k, v) # after"
    by (auto dest: split_list)
  with assms(1) have "k \<notin> fst ` set before" and "k \<notin> fst ` set after"
    by auto
  then show ?thesis
    by (simp add: split query_pairs_append query_pairs_Cons filter_query_pairs_absent
        filter_item_pairs_same)
qed

lemma build_url_pairs:
  "build_url c e params =
     BASE_URL @ ''/'' @ py_str c @ ''/'' @ py_str e @
       (if query_pairs params = [] then [] else ''?'' @ join ''&'' (map render_pair (query_pairs params)))"
  by (simp add: build_url_def collect_parts_pairs Let_def)

section \<open>Parameter extraction\<close>

lemma scalar_item_keys: "fst ` set (scalar_item args key) \<subseteq> {key}"
  by (auto simp: scalar_item_def split: option.splits if_splits)

lemma filter_item_keys: "fst ` set (filter_item args key) \<subseteq> {key}"
  by (auto simp: filter_item_def split: option.splits if_splits)

lemma copy_scalars_items:
  "distinct keys \<Longrightarrow> set keys \<inter> fst ` set params = {} \<Longrightarrow>
   copy_scalars args keys params = params @ concat (map (scalar_item args) keys)"
proof (induction keys arbitrary: params)
  case Nil
  then show ?case by simp
next
  case (Cons key keys)
  let ?p = "params @ scalar_item args key"
  have step: "(case dict_get args key of None \<Rightarrow> params
               | Some v \<Rightarrow> if v \<noteq> VNone then dict_set params key v else params) = ?p"
    using Cons.prems(2) by (auto simp: scalar_item_def dict_set_new split: option.split)
  have "set keys \<inter> fst ` set ?p = {}"
    using Cons.prems scalar_item_keys [of args key] by auto
  with Cons.IH [of ?p] Cons.prems(1) show ?case
    by (simp add: step)
qed

lemma copy_filter_item:
  "key \<notin> fst ` set params \<Longrightarrow> copy_filter args key params = params @ filter_item args key"
  by (auto simp: copy_filter_def filter_item_def dict_set_new split: option.split)

lemma concat_keys:
  "fst ` set (concat (map (scalar_item args) keys)) \<subseteq> set keys"
  using scalar_item_keys by fastforce

lemma extract_params_items:
  "extract_params args =
     concat (map (scalar_item args) scalar_keys)
     @ filter_item args ''rfilter'' @ filter_item args ''sfilter''"
proof -
  have d: "distinct scalar_keys" by (simp add: scalar_keys_def)
  have s: "copy_scalars args scalar_keys [] = concat (map (scalar_item args) scalar_keys)"
    using copy_scalars_items [OF d, of "[]" args] by simp
  have r: "''rfilter'' \<notin> fst ` set (concat (map (scalar_item args) scalar_keys))"
    using concat_keys [of args scalar_keys] by (auto simp: scalar_keys_def)
  have "''sfilter'' \<notin> fst ` set (concat (map (scalar_item args) scalar_keys))"
    using concat_keys [of args scalar_keys] by (auto simp: scalar_keys_def)
  moreover have "''sfilter'' \<notin> fst ` set (filter_item args ''rfilter'')"
    using filter_item_keys [of args "''rfilter''"] by auto
  ultimately have f: "''sfilter'' \<notin> fst ` set (concat (map (scalar_item args) scalar_keys)
      @ filter_item args ''rfilter'')"
    by auto
  show ?thesis
    unfolding extract_params_def s
    by (simp only: copy_filter_item [OF r] copy_filter_item [OF f] append_assoc)
qed

lemma map_fst_scalar_items:
  "map fst (concat (map (scalar_item args) keys)) = [k \<leftarrow> keys. scalar_item args k \<noteq> []]"
  by (induction keys) (auto simp: scalar_item_def split: option.splits)

lemma map_fst_filter_item:
  "map fst (filter_item args k) = [k' \<leftarrow> [k]. filter_item args k' \<noteq> []]"
  by (auto simp: filter_item_def split: option.splits)

lemma extract_params_keys:
  "map fst (extract_params args) =
     [k \<leftarrow> scalar_keys. scalar_item args k \<noteq> []]
     @ [k \<leftarrow> [''rfilter'', ''sfilter'']. filter_item args k \<noteq> []]"
  by (simp only: extract_params_items map_append map_fst_scalar_items map_fst_filter_item
      filter_append [symmetric] append.simps)

lemma key_order_distinct: "distinct key_order"
  by (simp add: key_order_def scalar_keys_def)

lemma extract_params_filter:
  "map fst (extract_params args) =
     [k \<leftarrow> key_order. if k \<in> set scalar_keys then scalar_item args k \<noteq> []
                        else filter_item args k \<noteq> []]"
proof -
  have "''rfilter'' \<notin> set scalar_keys" and "''sfilter'' \<notin> set scalar_keys"
    by (simp_all add: scalar_keys_def)
  then show ?thesis
    unfolding extract_params_keys key_order_def filter_append
    by (intro arg_cong2 [where f = append] filter_cong refl) auto
qed

lemma extract_params_distinct: "distinct (map fst (extract_params args))"
  unfolding extract_params_filter
  by (rule distinct_filter) (rule key_order_distinct)

lemma filter_mem_self: "[x \<leftarrow> xs. x \<in> set (filter Q xs)] = filter Q xs"
  by (rule filter_cong) auto

lemma extract_params_order:
  "map fst (extract_params args) = [k \<leftarrow> key_order. k \<in> fst ` set (extract_params args)]"
proof -
  have "fst ` set (extract_params args) = set (map fst (extract_params args))"
    by simp
  then show ?thesis
    by (simp only: extract_params_filter filter_mem_self)
qed

lemma extract_params_cong:
  assumes "\<forall>k \<in> set key_order. dict_get a k = dict_get b k"
  shows "extract_params a = extract_params b"
proof -
  have "\<forall>k \<in> set scalar_keys. scalar_item a k = scalar_item b k"
    using assms by (simp add: scalar_item_def key_order_def)
  then have "map (scalar_item a) scalar_keys = map (scalar_item b) scalar_keys"
    by simp
  moreover have "filter_item a ''rfilter'' = filter_item b ''rfilter''"
    and "filter_item a ''sfilter'' = filter_item b ''sfilter''"
    using assms by (simp_all add: filter_item_def key_order_def)
  ultimately show ?thesis
    by (simp only: extract_params_items)
qed

lemma extract_params_mem:
  assumes "(k, v) \<in> set (extract_params args)"
  shows "dict_get args k = Some v \<and> v \<noteq> VNone \<and> k \<in> set key_order"
  using assms unfolding extract_params_items key_order_def
  by (auto simp: scalar_item_def filter_item_def split: option.splits if_splits)

section \<open>The dispatcher\<close>

lemma handle_text: "\<exists>t. handle e = Inr [TextContent ''text'' t]"
  by (cases e) (simp_all add: handle_def)

lemma fetch_requests: "snd (fetch env url reqs) = reqs @ [url]"
  by (simp add: fetch_def split: http_outcome.split)

lemma fetch_status_error:
  "http_get env url = Response st body \<Longrightarrow> st < 200 \<or> 299 < st \<Longrightarrow>
   fetch env url reqs = (Inl (HTTPStatusError st body), reqs @ [url])"
  by (auto simp: fetch_def)

lemma fetch_success:
  "http_get env url = Response st body \<Longrightarrow> 200 \<le> st \<Longrightarrow> st \<le> 299 \<Longrightarrow>
   fetch env url reqs = (Inr body, reqs @ [url])"
  by (auto simp: fetch_def)

lemma list_compilations_fetch:
  "\<exists>url. snd (list_compilations env reqs) = reqs @ [url]
     \<and> (\<forall>e. fst (fetch env url reqs) = Inl e \<longrightarrow> fst (list_compilations env reqs) = Inl e)"
proof -
  let ?url = "BASE_URL @ ''/snaptron/registry''"
  obtain r q where f: "fetch env ?url reqs = (r, q)" by (cases "fetch env ?url reqs")
  with fetch_requests [of env ?url reqs] have q: "q = reqs @ [?url]" by simp
  show ?thesis
    by (rule exI [of _ ?url])
       (auto simp: list_compilations_def Let_def f q split: sum.splits json_outcome.splits)
qed

lemma subscript_missing: "dict_get d k = None \<Longrightarrow> subscript d k = Inl (KeyError k)"
  by (simp add: subscript_def)

lemma subscript_present: "dict_get d k = Some v \<Longrightarrow> subscript d k = Inr v"
  by (simp add: subscript_def)

lemma query_records_missing:
  "dict_get arguments ''compilation'' = None \<Longrightarrow>
   query_records env ep arguments reqs = (Inl (KeyError ''compilation''), reqs)"
  by (simp add: query_records_def subscript_missing)

lemma get_result_count_missing:
  "dict_get arguments ''compilation'' = None \<Longrightarrow>
   get_result_count env arguments reqs = (Inl (KeyError ''compilation''), reqs)"
  by (simp add: get_result_count_def subscript_missing)

lemma build_url_tool_missing:
  "dict_get arguments ''compilation'' = None \<Longrightarrow>
   build_url_tool arguments reqs = (Inl (KeyError ''compilation''), reqs)"
  by (simp add: build_url_tool_def subscript_missing)

lemma query_records_present:
  assumes "dict_get arguments ''compilation'' = Some c"
  shows "query_records env ep arguments reqs =
     (let url = build_url c (VStr ep) (extract_params arguments)
      in case fetch env url reqs of
           (Inl e, reqs') \<Rightarrow> (Inl e, reqs')
         | (Inr result, reqs') \<Rightarrow>
             (Inr [TextContent ''text''
                (''Query URL: '' @ url @ ''\<newline>\<newline>Results ('' @ show_nat (count_records result)
                 @ '' records):\<newline>\<newline>'' @ result)], reqs'))"
  by (simp add: query_records_def subscript_present [OF assms] Let_def split: prod.split sum.split)

lemma get_result_count_present:
  assumes "dict_get arguments ''compilation'' = Some c"
  shows "get_result_count env arguments reqs =
     (let url = build_url c (VStr ''snaptron'')
                  (dict_set (extract_params arguments) ''fields'' (VStr ''rc''))
      in case fetch env url reqs of
           (Inl e, reqs') \<Rightarrow> (Inl e, reqs')
         | (Inr result, reqs') \<Rightarrow>
             (Inr [TextContent ''text''
                (''Query URL: '' @ url @ ''\<newline>\<newline>Result count response:\<newline>'' @ result)],
              reqs'))"
  by (simp add: get_result_count_def subscript_present [OF assms] Let_def split: prod.split sum.split)

lemma query_records_fetch:
  assumes "dict_get arguments ''compilation'' = Some c"
  shows "\<exists>url. snd (query_records env ep arguments reqs) = reqs @ [url]
     \<and> (\<forall>e. fst (fetch env url reqs) = Inl e \<longrightarrow> fst (query_records env ep arguments reqs) = Inl e)"
proof -
  let ?url = "build_url c (VStr ep) (extract_params arguments)"
  obtain r q where f: "fetch env ?url reqs = (r, q)" by (cases "fetch env ?url reqs")
  with fetch_requests [of env ?url reqs] have q: "q = reqs @ [?url]" by simp
  show ?thesis
    by (rule exI [of _ ?url])
       (auto simp: query_records_present [OF assms] Let_def f q split: sum.splits)
qed

lemma get_result_count_fetch:
  assumes "dict_get arguments ''compilation'' = Some c"
  shows "\<exists>url. snd (get_result_count env arguments reqs) = reqs @ [url]
     \<and> (\<forall>e. fst (fetch env url reqs) = Inl e \<longrightarrow> fst (get_result_count env arguments reqs) = Inl e)"
proof -
  let ?url = "build_url c (VStr ''snaptron'')
                (dict_set (extract_params arguments) ''fields'' (VStr ''rc''))"
  obtain r q where f: "fetch env ?url reqs = (r, q)" by (cases "fetch env ?url reqs")
  with fetch_requests [of env ?url reqs] have q: "q = reqs @ [?url]" by simp
  show ?thesis
    by (rule exI [of _ ?url])
       (auto simp: get_result_count_present [OF assms] Let_def f q split: sum.splits)
qed

lemma build_url_tool_requests: "snd (build_url_tool arguments reqs) = reqs"
  by (simp add: build_url_tool_def Let_def split: sum.split)

text \<open>Every invocation makes no request, or exactly one.\<close>

lemma dispatch_requests:
  "snd (dispatch env name arguments reqs) = reqs
   \<or> (\<exists>url. snd (dispatch env name arguments reqs) = reqs @ [url]
        \<and> (\<forall>e. fst (fetch env url reqs) = Inl e \<longrightarrow> fst (dispatch env name arguments reqs) = Inl e))"
proof (cases "dict_get arguments ''compilation''")
  case None
  show ?thesis
    unfolding dispatch_def
    using list_compilations_fetch [of env reqs]
    by (simp add: query_records_missing [OF None] get_result_count_missing [OF None]
        build_url_tool_requests)
next
  case (Some c)
  show ?thesis
    unfolding dispatch_def
    using list_compilations_fetch [of env reqs] query_records_fetch [OF Some]
      get_result_count_fetch [OF Some]
    by (simp add: build_url_tool_requests)
qed

lemma call_tool_fst:
  "fst (call_tool env name arguments reqs) =
     (case fst (dispatch env name arguments reqs) of Inr r \<Rightarrow> Inr r | Inl e \<Rightarrow> handle e)"
  by (simp add: call_tool_def split: prod.split sum.split)

lemma call_tool_snd:
  "snd (call_tool env name arguments reqs) = snd (dispatch env name arguments reqs)"
  by (simp add: call_tool_def split: prod.split sum.split)

lemma handle_status:
  "handle (HTTPStatusError st body) =
     Inr [TextContent ''text'' (''HTTP error '' @ show_nat st @ '': '' @ body)]"
  by (simp add: handle_def)

lemma list_compilations_text:
  "list_compilations env reqs = (Inr r, reqs') \<Longrightarrow> \<exists>t. r = [TextContent ''text'' t]"
  by (auto simp: list_compilations_def Let_def split: prod.splits sum.splits json_outcome.splits)

lemma query_records_text:
  "query_records env ep arguments reqs = (Inr r, reqs') \<Longrightarrow> \<exists>t. r = [TextContent ''text'' t]"
  by (auto simp: query_records_def Let_def split: prod.splits sum.splits)

lemma get_result_count_text:
  "get_result_count env arguments reqs = (Inr r, reqs') \<Longrightarrow> \<exists>t. r = [TextContent ''text'' t]"
  by (auto simp: get_result_count_def Let_def split: prod.splits sum.splits)

lemma build_url_tool_text:
  "build_url_tool arguments reqs = (Inr r, reqs') \<Longrightarrow> \<exists>t. r = [TextContent ''text'' t]"
  by (auto simp: build_url_tool_def Let_def split: prod.splits sum.splits)

lemma dispatch_text:
  "dispatch env name arguments reqs = (Inr r, reqs') \<Longrightarrow> \<exists>t. r = [TextContent ''text'' t]"
  unfolding dispatch_def
  by (auto split: if_splits
      dest: list_compilations_text query_records_text get_result_count_text build_url_tool_text)

lemma repr_compilation:
  "repr_str ''compilation'' = [CHR 0x27] @ ''compilation'' @ [CHR 0x27]"
  by (simp add: repr_str_def repr_char_def printable_def Let_def)

lemma handle_missing_compilation:
  "handle (KeyError ''compilation'')
     = Inr [TextContent ''text'' (''Error: '' @ [CHR 0x27] @ ''compilation'' @ [CHR 0x27])]"
  by (simp add: handle_def repr_compilation)

lemma error_text_no_url:
  "\<not> sublist BASE_URL (''Error: '' @ [CHR 0x27] @ ''compilation'' @ [CHR 0x27])"
  by code_simp

lemma show_nat_500: "show_nat 500 = ''500''"
  by code_simp

lemma collect_parts_drop_key:
  assumes "\<forall>p \<in> set params. fst p = k \<longrightarrow> item_parts p = []"
  shows "collect_parts [p \<leftarrow> params. fst p \<noteq> k] [] = collect_parts params []"
  using assms by (induction params) (auto simp: collect_parts_acc)

lemma build_url_drop_key:
  assumes "\<forall>p \<in> set params. fst p = k \<longrightarrow> item_parts p = []"
  shows "build_url c e [p \<leftarrow> params. fst p \<noteq> k] = build_url c e params"
  by (simp add: build_url_def collect_parts_drop_key [OF assms])

lemma item_pairs_empty_value: "v = VNone \<or> v = VStr [] \<Longrightarrow> item_pairs (k, v) = []"
  by (auto simp: item_pairs_def)

lemma item_parts_empty_value: "v = VNone \<or> v = VStr [] \<Longrightarrow> item_parts (k, v) = []"
  by (auto simp: item_parts_def)

lemma distinct_same_key:
  "distinct (map fst params) \<Longrightarrow> (k, v) \<in> set params \<Longrightarrow> (k, v') \<in> set params \<Longrightarrow> v' = v"
  by (meson eq_key_imp_eq_value)

lemma no_pair_for_key:
  "([p \<leftarrow> query_pairs params. fst p = k] = []) = (k \<notin> fst ` set (query_pairs params))"
  by (auto simp: filter_empty_conv)

lemma build_url_tool_present:
  assumes "dict_get arguments ''compilation'' = Some c"
  shows "build_url_tool arguments reqs =
     (let url = build_url c (case dict_get arguments ''endpoint'' of
                               None \<Rightarrow> VStr ''snaptron'' | Some v \<Rightarrow> v)
                  (extract_params arguments)
      in (Inr [TextContent ''text''
            (''Built Snaptron URL:\<newline>'' @ url
             @ ''\<newline>\<newline>You can test this with:\<newline>  curl -L ''
             @ [CHR 0x22] @ url @ [CHR 0x22])], reqs))"
  by (simp add: build_url_tool_def subscript_present [OF assms] Let_def)

lemma call_build_url: "call_tool env ''snaptron_build_url'' arguments reqs =
    (case build_url_tool arguments reqs of
       (Inr r, reqs') \<Rightarrow> (Inr r, reqs') | (Inl e, reqs') \<Rightarrow> (handle e, reqs'))"
  by (simp add: call_tool_def dispatch_def)

lemma call_get_result_count: "call_tool env ''snaptron_get_result_count'' arguments reqs =
    (case get_result_count env arguments reqs of
       (Inr r, reqs') \<Rightarrow> (Inr r, reqs') | (Inl e, reqs') \<Rightarrow> (handle e, reqs'))"
  by (simp add: call_tool_def dispatch_def)

lemma fields_forced:
  "[p \<leftarrow> query_pairs (dict_set (extract_params arguments) ''fields'' (VStr ''rc'')).
      fst p = ''fields''] = [(''fields'', ''rc'')]"
proof -
  let ?params = "dict_set (extract_params arguments) ''fields'' (VStr ''rc'')"
  have "distinct (map fst ?params)"
    by (rule dict_set_distinct) (rule extract_params_distinct)
  moreover have "(''fields'', VStr ''rc'') \<in> set ?params"
    by (rule dict_set_mem)
  ultimately have "[p \<leftarrow> query_pairs ?params. fst p = ''fields'']
      = item_pairs (''fields'', VStr ''rc'')"
    by (rule filter_query_pairs_key)
  then show ?thesis
    by (simp add: item_pairs_def py_str_def)
qed

text \<open>The dispatcher reads its arguments by key only.\<close>

lemma call_tool_cong:
  assumes "\<forall>k \<in> set (''compilation'' # ''endpoint'' # key_order). dict_get a k = dict_get b k"
  shows "call_tool env name a reqs = call_tool env name b reqs"
proof -
  have p: "extract_params a = extract_params b"
    using assms by (intro extract_params_cong) simp
  have c: "subscript a ''compilation'' = subscript b ''compilation''"
    using assms by (simp add: subscript_def)
  have e: "dict_get a ''endpoint'' = dict_get b ''endpoint''"
    using assms by simp
  have "query_records env ep a reqs = query_records env ep b reqs" for ep
    unfolding query_records_def p c by (rule refl)
  moreover have "get_result_count env a reqs = get_result_count env b reqs"
    unfolding get_result_count_def p c by (rule refl)
  moreover have "build_url_tool a reqs = build_url_tool b reqs"
    unfolding build_url_tool_def p c e by (rule refl)
  ultimately have "dispatch env name a reqs = dispatch env name b reqs"
    by (simp add: dispatch_def)
  then show ?thesis
    by (simp add: call_tool_def)
qed

lemma dict_get_append_new:
  "dict_get (d @ [(k, v)]) k' =
     (case dict_get d k' of Some x \<Rightarrow> Some x | None \<Rightarrow> if k' = k then Some v else None)"
  by (simp add: dict_get_def map_add_def split: option.split)

section \<open>The response summarizer\<close>

lemma is_record_fun: "is_record = (\<lambda>l. l \<noteq> [] \<and> \<not> startswith l ''DataSource'')"
  by (rule ext) (simp add: is_record_def)

lemma count_records_filter: "count_records txt = length (filter is_record (split_nl (strip txt)))"
  by (simp add: count_records_def is_record_fun Let_def)

lemma spec_summarize_filter:
  "spec_summarize txt = length (filter is_record (map strip (split_nl txt)))"
  by (simp add: spec_summarize_def is_record_fun)

lemma is_space_newline: "is_space (CHR 0x0A)"
  by (simp add: is_space_def)

lemma split_nl_nonempty: "split_nl s \<noteq> []"
  by (induction s) (auto split: list.split)

lemma split_nl_Cons:
  "split_nl (c # cs) =
     (if c = CHR 0x0A then [] # split_nl cs
      else (c # hd (split_nl cs)) # tl (split_nl cs))"
  using split_nl_nonempty [of cs] by (cases "split_nl cs") auto

lemma split_nl_snoc:
  "split_nl (s @ [c]) =
     (if c = CHR 0x0A then split_nl s @ [[]]
      else butlast (split_nl s) @ [last (split_nl s) @ [c]])"
proof (induction s)
  case Nil
  show ?case by simp
next
  case (Cons a s)
  have ne: "split_nl s \<noteq> []" by (rule split_nl_nonempty)
  show ?case
  proof (cases "c = CHR 0x0A")
    case True
    with Cons ne show ?thesis
      by (cases "split_nl s") (auto simp: split_nl_Cons simp del: split_nl.simps)
  next
    case False
    with Cons ne show ?thesis
      by (cases "split_nl s"; cases "butlast (split_nl s)")
         (auto simp: split_nl_Cons simp del: split_nl.simps split: if_splits)
  qed
qed


lemma split_nl_tail_lines: "set (split_nl cs) \<subseteq> set (split_nl (CHR 0x0A # cs))"
  by auto

text \<open>Stripping on the left, when no line starts with whitespace.\<close>

lemma lstrip_lines:
  assumes "\<forall>l \<in> set (split_nl s). l = [] \<or> \<not> is_space (hd l)"
  shows "length (filter is_record (split_nl (dropWhile is_space s)))
           = length (filter is_record (split_nl s))
       \<and> set (split_nl (dropWhile is_space s)) \<subseteq> insert [] (set (split_nl s))"
  using assms
proof (induction s)
  case Nil
  show ?case by simp
next
  case (Cons c cs)
  show ?case
  proof (cases "is_space c")
    case False
    then show ?thesis by auto
  next
    case True
    have nl: "c = CHR 0x0A"
    proof (rule ccontr)
      assume "c \<noteq> CHR 0x0A"
      then have "c # hd (split_nl cs) \<in> set (split_nl (c # cs))"
        by (simp add: split_nl_Cons del: split_nl.simps)
      with Cons.prems have "\<not> is_space c" by fastforce
      with True show False by simp
    qed
    from Cons.prems nl have "\<forall>l \<in> set (split_nl cs). l = [] \<or> \<not> is_space (hd l)"
      by simp
    from Cons.IH [OF this] True nl show ?thesis
      by (auto simp: is_record_def)
  qed
qed

text \<open>Stripping on the right, when no line ends with whitespace.\<close>

lemma rstrip_lines:
  assumes "\<forall>l \<in> set (split_nl s). l = [] \<or> \<not> is_space (last l)"
  shows "length (filter is_record (split_nl (rev (dropWhile is_space (rev s)))))
           = length (filter is_record (split_nl s))"
  using assms
proof (induction s rule: rev_induct)
  case Nil
  show ?case by simp
next
  case (snoc c s)
  have ne: "split_nl s \<noteq> []" by (rule split_nl_nonempty)
  show ?case
  proof (cases "is_space c")
    case False
    then show ?thesis by simp
  next
    case True
    have nl: "c = CHR 0x0A"
    proof (rule ccontr)
      assume "c \<noteq> CHR 0x0A"
      then have "last (split_nl s) @ [c] \<in> set (split_nl (s @ [c]))"
        by (simp add: split_nl_snoc)
      with snoc.prems have "\<not> is_space c" by fastforce
      with True show False by simp
    qed
    from snoc.prems nl have "\<forall>l \<in> set (split_nl s). l = [] \<or> \<not> is_space (last l)"
      by (simp add: split_nl_snoc)
    from snoc.IH [OF this] True nl show ?thesis
      by (simp add: split_nl_snoc is_record_def)
  qed
qed

lemma strip_fixed:
  assumes "strip l = l"
  shows "l = [] \<or> \<not> is_space (hd l) \<and> \<not> is_space (last l)"
proof (cases "l = []")
  case True
  then show ?thesis by simp
next
  case False
  let ?m = "dropWhile is_space l"
  have "length (strip l) \<le> length ?m"
    using length_dropWhile_le [of is_space "rev ?m"] by (simp add: strip_def)
  with assms have "length l \<le> length ?m" by simp
  moreover have "length ?m \<le> length l" by (rule length_dropWhile_le)
  ultimately have "length ?m = length l" by simp
  moreover have "length (takeWhile is_space l) + length ?m = length l"
    by (metis length_append takeWhile_dropWhile_id)
  ultimately have "takeWhile is_space l = []"
    by simp
  then have m: "?m = l"
    by (metis append_Nil takeWhile_dropWhile_id)
  with False have h: "\<not> is_space (hd l)"
    by (simp add: dropWhile_eq_self_iff)
  from assms m have "rev (dropWhile is_space (rev l)) = l"
    by (simp add: strip_def)
  then have "dropWhile is_space (rev l) = rev l"
    by (metis rev_rev_ident)
  with False have "\<not> is_space (hd (rev l))"
    by (simp add: dropWhile_eq_self_iff)
  with False have "\<not> is_space (last l)"
    by (simp add: hd_rev)
  with h show ?thesis by simp
qed

lemma count_records_agrees:
  assumes "\<forall>l \<in> set (split_nl txt). strip l = l"
  shows "count_records txt = spec_summarize txt"
proof -
  from assms have fixed: "\<forall>l \<in> set (split_nl txt). l = [] \<or> \<not> is_space (hd l) \<and> \<not> is_space (last l)"
    using strip_fixed by blast
  then have left: "\<forall>l \<in> set (split_nl txt). l = [] \<or> \<not> is_space (hd l)"
    by blast
  let ?t = "dropWhile is_space txt"
  from lstrip_lines [OF left] fixed
  have "\<forall>l \<in> set (split_nl ?t). l = [] \<or> \<not> is_space (last l)"
    by blast
  from rstrip_lines [OF this] lstrip_lines [OF left]
  have "count_records txt = length (filter is_record (split_nl txt))"
    by (simp add: count_records_filter strip_def)
  moreover from assms have "map strip (split_nl txt) = split_nl txt"
    by (simp add: map_idI)
  ultimately show ?thesis
    by (simp add: spec_summarize_filter)
qed

lemma call_query_tool:
  assumes "(name, ep) \<in> set [(''snaptron_query_junctions'', ''snaptron''),
      (''snaptron_query_genes'', ''genes''), (''snaptron_query_samples'', ''samples'')]"
  shows "call_tool env name arguments reqs =
    (case query_records env ep arguments reqs of
       (Inr r, reqs') \<Rightarrow> (Inr r, reqs') | (Inl e, reqs') \<Rightarrow> (handle e, reqs'))"
  using assms by (auto simp: call_tool_def dispatch_def)

section \<open>The claims\<close>

text \<open>
  C1. Every invocation of \<open>call_tool\<close> returns normally, with exactly one content block
  of type text: every branch of the dispatcher that returns does so with one text block,
  and every exception that leaves the dispatcher (a status error, a request error, a
  missing key or any other exception) is turned by the handlers into one text block.
  Cancellation of the running coroutine is outside the model.
\<close>

theorem call_tool_always_answers:
  "(\<exists>t reqs'. call_tool env name arguments reqs = (Inr [TextContent ''text'' t], reqs'))
   \<and> (\<forall>e reqs'. dispatch env name arguments reqs = (Inl e, reqs') \<longrightarrow>
          call_tool env name arguments reqs = (handle e, reqs')
          \<and> (\<exists>t. handle e = Inr [TextContent ''text'' t]))
   \<and> (\<forall>m. handle (RequestError m) = Inr [TextContent ''text'' (''Request error: '' @ m)])
   \<and> (\<forall>m. handle (OtherException m) = Inr [TextContent ''text'' (''Error: '' @ m)])
   \<and> (\<forall>k. handle (KeyError k) = Inr [TextContent ''text'' (''Error: '' @ repr_str k)])
   \<and> (\<forall>st body. handle (HTTPStatusError st body) =
          Inr [TextContent ''text'' (''HTTP error '' @ show_nat st @ '': '' @ body)])"
proof -
  have answered: "\<exists>t reqs'. call_tool env name arguments reqs = (Inr [TextContent ''text'' t], reqs')"
  proof (cases "dispatch env name arguments reqs")
    case (Pair res reqs')
    show ?thesis
    proof (cases res)
      case (Inl e)
      obtain t where "handle e = Inr [TextContent ''text'' t]"
        using handle_text by blast
      with Pair Inl show ?thesis by (simp add: call_tool_def)
    next
      case (Inr r)
      with Pair obtain t where "r = [TextContent ''text'' t]"
        using dispatch_text by blast
      with Pair Inr show ?thesis by (simp add: call_tool_def)
    qed
  qed
  have caught: "\<forall>e reqs'. dispatch env name arguments reqs = (Inl e, reqs') \<longrightarrow>
          call_tool env name arguments reqs = (handle e, reqs')
          \<and> (\<exists>t. handle e = Inr [TextContent ''text'' t])"
    by (simp add: call_tool_def handle_text)
  show ?thesis
    using answered caught by (simp add: handle_def)
qed

theorem call_tool_always_answers_witness:
  "dispatch (stub_env 200 ''ok'') ''snaptron_query_genes'' [(''regions'', VStr ''BRCA1'')] []
     = (Inl (KeyError ''compilation''), [])
   \<and> call_tool (stub_env 200 ''ok'') ''snaptron_query_genes'' [(''regions'', VStr ''BRCA1'')] []
     = (Inr [TextContent ''text'' (''Error: '' @ [CHR 0x27] @ ''compilation'' @ [CHR 0x27])], [])"
proof -
  let ?env = "stub_env 200 ''ok''"
  let ?args = "[(''regions'', VStr ''BRCA1'')]"
  have d: "dispatch ?env ''snaptron_query_genes'' ?args [] = (Inl (KeyError ''compilation''), [])"
    by (simp add: dispatch_def query_records_def subscript_def dict_get_def)
  have h: "handle (KeyError ''compilation'')
      = Inr [TextContent ''text'' (''Error: '' @ [CHR 0x27] @ ''compilation'' @ [CHR 0x27])]"
    by (rule handle_missing_compilation)
  from call_tool_always_answers [of ?env "''snaptron_query_genes''" ?args "[]"] d h
  show ?thesis
    by simp
qed

text \<open>
  C7. For every tool name outside the six names of the catalog and every argument mapping,
  \<open>call_tool\<close> returns normally with the text \<open>Unknown tool: \<close> followed by the name, and
  requests nothing.
\<close>

theorem unknown_tool_soft_error:
  assumes "name \<notin> set tool_names"
  shows "call_tool env name arguments reqs
           = (Inr [TextContent ''text'' (''Unknown tool: '' @ name)], reqs)
       \<and> sublist name (''Unknown tool: '' @ name)"
proof -
  from assms have "dispatch env name arguments reqs
      = (Inr [TextContent ''text'' (''Unknown tool: '' @ name)], reqs)"
    by (simp add: tool_names_def dispatch_def)
  moreover have "sublist name (''Unknown tool: '' @ name)"
    using sublist_appendI [of name "''Unknown tool: ''" "[]"] by simp
  ultimately show ?thesis
    by (simp add: call_tool_def)
qed

theorem unknown_tool_soft_error_witness:
  "''snaptron_delete_everything'' \<notin> set tool_names
   \<and> call_tool (stub_env 200 ''ok'') ''snaptron_delete_everything''
        [(''compilation'', VStr ''gtexv2'')] []
      = (Inr [TextContent ''text'' ''Unknown tool: snaptron_delete_everything''], [])"
proof -
  have n: "''snaptron_delete_everything'' \<notin> set tool_names"
    by (simp add: tool_names_def)
  from unknown_tool_soft_error [OF n] n show ?thesis
    by simp
qed

text \<open>
  C6. When the URL an invocation requests is answered with a status outside 200..299, the
  invocation returns normally with the text \<open>HTTP error <status>: <body>\<close>, which
  contains the status code and the body, and that request is the only one it made.
\<close>

theorem transport_failure_soft_error:
  assumes "call_tool env name arguments reqs = (res, reqs')"
    and "url \<in> set (requested reqs reqs')"
    and "http_get env url = Response st body"
    and "st < 200 \<or> 299 < st"
  shows "res = Inr [TextContent ''text'' (''HTTP error '' @ show_nat st @ '': '' @ body)]
       \<and> reqs' = reqs @ [url]
       \<and> requested reqs reqs' = [url]
       \<and> sublist (show_nat st) (''HTTP error '' @ show_nat st @ '': '' @ body)
       \<and> sublist body (''HTTP error '' @ show_nat st @ '': '' @ body)"
proof -
  let ?d = "dispatch env name arguments reqs"
  from assms(1) have res: "res = fst (call_tool env name arguments reqs)"
    and reqs': "reqs' = snd ?d"
    by (simp_all add: call_tool_snd [symmetric])
  from assms(2) have "reqs' \<noteq> reqs"
    by (auto simp: requested_def)
  with dispatch_requests [of env name arguments reqs] reqs'
  obtain u where u: "reqs' = reqs @ [u]"
    and fail: "\<forall>e. fst (fetch env u reqs) = Inl e \<longrightarrow> fst ?d = Inl e"
    by auto
  from assms(2) u have "u = url"
    by (simp add: requested_def)
  with fail fetch_status_error [OF assms(3,4), of reqs]
  have "fst ?d = Inl (HTTPStatusError st body)"
    by simp
  then have "res = Inr [TextContent ''text'' (''HTTP error '' @ show_nat st @ '': '' @ body)]"
    by (simp add: res call_tool_fst handle_status)
  moreover have "sublist (show_nat st) (''HTTP error '' @ show_nat st @ '': '' @ body)"
    by (rule sublist_appendI)
  moreover have "sublist body (''HTTP error '' @ show_nat st @ '': '' @ body)"
    using sublist_appendI [of body "''HTTP error '' @ show_nat st @ '': ''" "[]"] by simp
  ultimately show ?thesis
    using u \<open>u = url\<close> by (simp add: requested_def)
qed


theorem transport_failure_soft_error_witness:
  "call_tool (stub_env 500 ''server error'') ''snaptron_query_junctions''
       [(''compilation'', VStr ''gtexv2''), (''regions'', VStr ''BRCA1'')] []
     = (Inr [TextContent ''text'' ''HTTP error 500: server error''],
        [''http://snaptron.cs.jhu.edu/gtexv2/snaptron?regions=BRCA1''])
   \<and> sublist ''500'' ''HTTP error 500: server error''
   \<and> sublist ''server error'' ''HTTP error 500: server error''"
proof -
  let ?env = "stub_env 500 ''server error''"
  let ?args = "[(''compilation'', VStr ''gtexv2''), (''regions'', VStr ''BRCA1'')]"
  let ?url = "''http://snaptron.cs.jhu.edu/gtexv2/snaptron?regions=BRCA1''"
  have url: "build_url (VStr ''gtexv2'') (VStr ''snaptron'') (extract_params ?args) = ?url"
    by (simp add: build_url_def BASE_URL_def extract_params_def scalar_keys_def copy_filter_def
        dict_get_def item_parts_def py_str_def)
  have run: "call_tool ?env ''snaptron_query_junctions'' ?args []
      = (fst (call_tool ?env ''snaptron_query_junctions'' ?args []), [?url])"
    by (simp add: call_tool_def dispatch_def query_records_def subscript_def dict_get_def
        Let_def url fetch_def stub_env_def stub_reply_def handle_def)
  have get: "http_get ?env ?url = Response 500 ''server error''"
    by (simp add: stub_env_def stub_reply_def)
  from transport_failure_soft_error [OF run _ get]
  show ?thesis
    using run by (simp add: requested_def show_nat_500)
qed

text \<open>
  C2. A key of \<open>params\<close> whose value is a list of N elements contributes exactly N pairs
  to the query string, one per element in the order of the list, an empty string
  included; they stand together, between the parts of the keys before and after. The URL
  is the base, and \<open>?\<close> and the pairs joined by \<open>&\<close> when there is any. The URL of the
  scenario is as the specification gives it.
\<close>

theorem build_url_sequence_key:
  assumes "distinct (map fst params)" and "(k, VList vs) \<in> set params"
  shows "[p \<leftarrow> query_pairs params. fst p = k] = map (\<lambda>v. (k, py_str v)) vs
       \<and> length [p \<leftarrow> query_pairs params. fst p = k] = length vs
       \<and> (\<exists>before after. params = before @ (k, VList vs) # after
             \<and> k \<notin> fst ` set before \<and> k \<notin> fst ` set after
             \<and> collect_parts params [] =
                 collect_parts before [] @ map (\<lambda>v. k @ ''='' @ py_str v) vs
                 @ collect_parts after [])
       \<and> build_url c e params =
           BASE_URL @ ''/'' @ py_str c @ ''/'' @ py_str e @
             (if query_pairs params = [] then []
              else ''?'' @ join ''&'' (map render_pair (query_pairs params)))
       \<and> build_url (VStr ''gtexv2'') (VStr ''snaptron'')
             [(''regions'', VStr ''BRCA1''),
              (''rfilter'', VList [VStr ''samples_count>:5'', VStr ''coverage_avg>:10.0''])]
           = ''http://snaptron.cs.jhu.edu/gtexv2/snaptron?regions=BRCA1&rfilter=samples_count>:5&rfilter=coverage_avg>:10.0''"
proof -
  have a: "[p \<leftarrow> query_pairs params. fst p = k] = map (\<lambda>v. (k, py_str v)) vs"
    using filter_query_pairs_key [OF assms] by (simp add: item_pairs_def)
  from assms(2) obtain before after where split: "params = before @ (k, VList vs) # after"
    by (auto dest: split_list)
  with assms(1) have "k \<notin> fst ` set before" and "k \<notin> fst ` set after"
    by auto
  moreover have "collect_parts params [] =
      collect_parts before [] @ map (\<lambda>v. k @ ''='' @ py_str v) vs @ collect_parts after []"
    by (simp add: split collect_parts_acc item_parts_def)
  ultimately have b: "\<exists>before after. params = before @ (k, VList vs) # after
             \<and> k \<notin> fst ` set before \<and> k \<notin> fst ` set after
             \<and> collect_parts params [] =
                 collect_parts before [] @ map (\<lambda>v. k @ ''='' @ py_str v) vs
                 @ collect_parts after []"
    using split by blast
  have c: "build_url (VStr ''gtexv2'') (VStr ''snaptron'')
             [(''regions'', VStr ''BRCA1''),
              (''rfilter'', VList [VStr ''samples_count>:5'', VStr ''coverage_avg>:10.0''])]
           = ''http://snaptron.cs.jhu.edu/gtexv2/snaptron?regions=BRCA1&rfilter=samples_count>:5&rfilter=coverage_avg>:10.0''"
    by (simp add: build_url_def BASE_URL_def item_parts_def py_str_def)
  show ?thesis
    using a b c build_url_pairs [of c e params] by simp
qed

theorem build_url_sequence_key_witness:
  "[p \<leftarrow> query_pairs [(''regions'', VStr ''BRCA1''), (''rfilter'', VList [VStr '''', VStr ''a>:1''])].
      fst p = ''rfilter''] = [(''rfilter'', ''''), (''rfilter'', ''a>:1'')]
   \<and> build_url (VStr ''gtexv2'') (VStr ''snaptron'')
       [(''regions'', VStr ''BRCA1''), (''rfilter'', VList [VStr '''', VStr ''a>:1''])]
     = ''http://snaptron.cs.jhu.edu/gtexv2/snaptron?regions=BRCA1&rfilter=&rfilter=a>:1''"
proof -
  let ?params = "[(''regions'', VStr ''BRCA1''), (''rfilter'', VList [VStr '''', VStr ''a>:1''])]"
  have d: "distinct (map fst ?params)" by simp
  have m: "(''rfilter'', VList [VStr '''', VStr ''a>:1'']) \<in> set ?params" by simp
  have u: "build_url (VStr ''gtexv2'') (VStr ''snaptron'') ?params
     = ''http://snaptron.cs.jhu.edu/gtexv2/snaptron?regions=BRCA1&rfilter=&rfilter=a>:1''"
    by (simp add: build_url_def BASE_URL_def item_parts_def py_str_def)
  from build_url_sequence_key [OF d m, of "VStr ''gtexv2''" "VStr ''snaptron''"]
  have "[p \<leftarrow> query_pairs ?params. fst p = ''rfilter'']
      = map (\<lambda>v. (''rfilter'', py_str v)) [VStr '''', VStr ''a>:1'']"
    by (rule conjunct1)
  then show ?thesis
    using u by (simp add: py_str_def)
qed

text \<open>
  C4. A key of \<open>params\<close> whose value is \<open>None\<close> or the empty string contributes no
  pair: the URL is the one built from \<open>params\<close> without that key. A key absent from the
  tool arguments, or present there with \<open>None\<close> or the empty string, is not a key of any
  pair of the URL built from \<open>extract_params\<close>.
\<close>

theorem empty_scalar_skipped:
  "(distinct (map fst params) \<longrightarrow> (k, v) \<in> set params \<longrightarrow> v = VNone \<or> v = VStr [] \<longrightarrow>
      k \<notin> fst ` set (query_pairs params)
      \<and> build_url c e params = build_url c e [p \<leftarrow> params. fst p \<noteq> k])
   \<and> (dict_get args k = None \<or> dict_get args k = Some VNone \<or> dict_get args k = Some (VStr []) \<longrightarrow>
      k \<notin> fst ` set (query_pairs (extract_params args))
      \<and> build_url c e (extract_params args)
          = build_url c e [p \<leftarrow> extract_params args. fst p \<noteq> k])
   \<and> (dict_get args k = None \<longrightarrow> k \<notin> fst ` set (extract_params args))
   \<and> build_url c e params =
       BASE_URL @ ''/'' @ py_str c @ ''/'' @ py_str e @
         (if query_pairs params = [] then []
          else ''?'' @ join ''&'' (map render_pair (query_pairs params)))"
proof -
  have skipped: "k \<notin> fst ` set (query_pairs ps)
      \<and> build_url c e ps = build_url c e [p \<leftarrow> ps. fst p \<noteq> k]"
    if d: "distinct (map fst ps)" and m: "(k, w) \<in> set ps" and w: "w = VNone \<or> w = VStr []"
    for ps w
  proof -
    have "[p \<leftarrow> query_pairs ps. fst p = k] = []"
      using filter_query_pairs_key [OF d m] item_pairs_empty_value [OF w] by simp
    then have "k \<notin> fst ` set (query_pairs ps)"
      by (simp add: no_pair_for_key)
    moreover have "\<forall>p \<in> set ps. fst p = k \<longrightarrow> item_parts p = []"
    proof (intro ballI impI)
      fix p assume "p \<in> set ps" and "fst p = k"
      then have "(k, snd p) \<in> set ps" by (metis prod.collapse)
      with d m have "snd p = w" by (rule distinct_same_key)
      with \<open>fst p = k\<close> item_parts_empty_value [OF w, of k] show "item_parts p = []"
        by (metis prod.collapse)
    qed
    ultimately show ?thesis
      by (simp add: build_url_drop_key)
  qed
  have absent: "k \<notin> fst ` set (query_pairs ps)
      \<and> build_url c e ps = build_url c e [p \<leftarrow> ps. fst p \<noteq> k]"
    if "k \<notin> fst ` set ps" for ps
  proof -
    have "k \<notin> fst ` set (query_pairs ps)"
      using that query_pairs_keys [of ps] by blast
    moreover have "[p \<leftarrow> ps. fst p \<noteq> k] = ps"
      using that by (auto simp: filter_id_conv)
    ultimately show ?thesis by simp
  qed
  have pipeline: "k \<notin> fst ` set (query_pairs (extract_params args))
      \<and> build_url c e (extract_params args)
          = build_url c e [p \<leftarrow> extract_params args. fst p \<noteq> k]"
    if a: "dict_get args k = None \<or> dict_get args k = Some VNone \<or> dict_get args k = Some (VStr [])"
  proof (cases "k \<in> fst ` set (extract_params args)")
    case False
    then show ?thesis by (rule absent)
  next
    case True
    then obtain w where m: "(k, w) \<in> set (extract_params args)" by force
    with extract_params_mem [OF m] a have "w = VNone \<or> w = VStr []" by auto
    with extract_params_distinct m show ?thesis by (rule skipped)
  qed
  have gone: "k \<notin> fst ` set (extract_params args)" if "dict_get args k = None"
    using that extract_params_mem [of k _ args] by force
  show ?thesis
    using skipped [of params v] pipeline gone build_url_pairs [of c e params] by blast
qed

theorem empty_scalar_skipped_witness:
  "build_url (VStr ''gtexv2'') (VStr ''snaptron'')
       [(''regions'', VStr ''BRCA1''), (''ids'', VStr ''''), (''sids'', VNone)]
     = ''http://snaptron.cs.jhu.edu/gtexv2/snaptron?regions=BRCA1''
   \<and> ''ids'' \<notin> fst ` set (query_pairs
         [(''regions'', VStr ''BRCA1''), (''ids'', VStr ''''), (''sids'', VNone)])
   \<and> ''fields'' \<notin> fst ` set (query_pairs (extract_params
         [(''compilation'', VStr ''gtexv2''), (''regions'', VStr ''BRCA1'')]))"
proof -
  let ?params = "[(''regions'', VStr ''BRCA1''), (''ids'', VStr ''''), (''sids'', VNone)]"
  let ?args = "[(''compilation'', VStr ''gtexv2''), (''regions'', VStr ''BRCA1'')]"
  have d: "distinct (map fst ?params)" by simp
  have m: "(''ids'', VStr '''') \<in> set ?params" by simp
  have n: "dict_get ?args ''fields'' = None" by (simp add: dict_get_def)
  have u: "build_url (VStr ''gtexv2'') (VStr ''snaptron'') ?params
     = ''http://snaptron.cs.jhu.edu/gtexv2/snaptron?regions=BRCA1''"
    by (simp add: build_url_def BASE_URL_def item_parts_def py_str_def)
  from empty_scalar_skipped [of ?params "''ids''" "VStr ''''" _ _ "[]"] d m
  have "''ids'' \<notin> fst ` set (query_pairs ?params)"
    by simp
  moreover from empty_scalar_skipped [of "[]" "''fields''" VNone _ _ ?args] n
  have "''fields'' \<notin> fst ` set (query_pairs (extract_params ?args))"
    by simp
  ultimately show ?thesis
    using u by simp
qed

text \<open>
  C5. The count-only tool sets \<open>fields\<close> to \<open>rc\<close> before it builds the URL, whatever the
  caller gave: when \<open>compilation\<close> is there, the one URL requested is built from the
  extracted parameters with \<open>fields\<close> replaced by \<open>rc\<close>, its only pair for \<open>fields\<close> is
  \<open>fields=rc\<close>, the other keys are untouched, and a successful response body is returned
  as it is after the URL, with no count computed here. Without \<open>compilation\<close> no URL is
  built and nothing is requested.
\<close>

theorem count_tool_forces_fields:
  "(\<forall>c. dict_get arguments ''compilation'' = Some c \<longrightarrow>
      (\<exists>params url.
         params = dict_set (extract_params arguments) ''fields'' (VStr ''rc'')
         \<and> url = build_url c (VStr ''snaptron'') params
         \<and> snd (call_tool env ''snaptron_get_result_count'' arguments reqs) = reqs @ [url]
         \<and> dict_get params ''fields'' = Some (VStr ''rc'')
         \<and> [p \<leftarrow> query_pairs params. fst p = ''fields''] = [(''fields'', ''rc'')]
         \<and> (\<forall>k. k \<noteq> ''fields'' \<longrightarrow> dict_get params k = dict_get (extract_params arguments) k)
         \<and> (\<forall>st body. http_get env url = Response st body \<longrightarrow> 200 \<le> st \<longrightarrow> st \<le> 299 \<longrightarrow>
               fst (call_tool env ''snaptron_get_result_count'' arguments reqs)
                 = Inr [TextContent ''text''
                     (''Query URL: '' @ url @ ''\<newline>\<newline>Result count response:\<newline>'' @ body)])))
   \<and> (dict_get arguments ''compilation'' = None \<longrightarrow>
        snd (call_tool env ''snaptron_get_result_count'' arguments reqs) = reqs)"
proof (intro conjI allI impI)
  fix c assume c: "dict_get arguments ''compilation'' = Some c"
  let ?params = "dict_set (extract_params arguments) ''fields'' (VStr ''rc'')"
  let ?url = "build_url c (VStr ''snaptron'') ?params"
  let ?call = "call_tool env ''snaptron_get_result_count'' arguments reqs"
  obtain r q where f: "fetch env ?url reqs = (r, q)" by (cases "fetch env ?url reqs")
  with fetch_requests [of env ?url reqs] have q: "q = reqs @ [?url]" by simp
  have reqs: "snd ?call = reqs @ [?url]"
    by (simp add: call_get_result_count get_result_count_present [OF c] Let_def f q
        split: sum.split)
  have body: "fst ?call = Inr [TextContent ''text''
        (''Query URL: '' @ ?url @ ''\<newline>\<newline>Result count response:\<newline>'' @ body)]"
    if "http_get env ?url = Response st body" and "200 \<le> st" and "st \<le> 299" for st body
    using fetch_success [OF that, of reqs]
    by (simp add: call_get_result_count get_result_count_present [OF c] Let_def)
  show "\<exists>params url.
         params = dict_set (extract_params arguments) ''fields'' (VStr ''rc'')
         \<and> url = build_url c (VStr ''snaptron'') params
         \<and> snd ?call = reqs @ [url]
         \<and> dict_get params ''fields'' = Some (VStr ''rc'')
         \<and> [p \<leftarrow> query_pairs params. fst p = ''fields''] = [(''fields'', ''rc'')]
         \<and> (\<forall>k. k \<noteq> ''fields'' \<longrightarrow> dict_get params k = dict_get (extract_params arguments) k)
         \<and> (\<forall>st body. http_get env url = Response st body \<longrightarrow> 200 \<le> st \<longrightarrow> st \<le> 299 \<longrightarrow>
               fst ?call = Inr [TextContent ''text''
                     (''Query URL: '' @ url @ ''\<newline>\<newline>Result count response:\<newline>'' @ body)])"
    using reqs body fields_forced [of arguments]
    by (intro exI [of _ ?params] exI [of _ ?url]) (simp add: dict_get_set)
next
  assume "dict_get arguments ''compilation'' = None"
  then show "snd (call_tool env ''snaptron_get_result_count'' arguments reqs) = reqs"
    by (simp add: call_get_result_count get_result_count_missing)
qed

theorem count_tool_forces_fields_witness:
  "call_tool (stub_env 200 ''42'') ''snaptron_get_result_count''
       [(''compilation'', VStr ''gtexv2''), (''fields'', VStr ''chromosome,start''),
        (''regions'', VStr ''BRCA1'')] []
     = (Inr [TextContent ''text''
          ''Query URL: http://snaptron.cs.jhu.edu/gtexv2/snaptron?regions=BRCA1&fields=rc\<newline>\<newline>Result count response:\<newline>42''],
        [''http://snaptron.cs.jhu.edu/gtexv2/snaptron?regions=BRCA1&fields=rc''])"
proof -
  let ?env = "stub_env 200 ''42''"
  let ?args = "[(''compilation'', VStr ''gtexv2''), (''fields'', VStr ''chromosome,start''),
        (''regions'', VStr ''BRCA1'')]"
  let ?url = "''http://snaptron.cs.jhu.edu/gtexv2/snaptron?regions=BRCA1&fields=rc''"
  have c: "dict_get ?args ''compilation'' = Some (VStr ''gtexv2'')"
    by (simp add: dict_get_def)
  have p: "extract_params ?args = [(''regions'', VStr ''BRCA1''), (''fields'', VStr ''chromosome,start'')]"
    by (simp add: extract_params_def scalar_keys_def copy_filter_def dict_get_def)
  have u: "build_url (VStr ''gtexv2'') (VStr ''snaptron'')
      (dict_set (extract_params ?args) ''fields'' (VStr ''rc'')) = ?url"
    by (simp add: p build_url_def BASE_URL_def item_parts_def py_str_def)
  have g: "http_get ?env ?url = Response 200 ''42''"
    by (simp add: stub_env_def stub_reply_def)
  from count_tool_forces_fields [of ?args ?env "[]"] c u g
  have "snd (call_tool ?env ''snaptron_get_result_count'' ?args []) = [?url]
      \<and> fst (call_tool ?env ''snaptron_get_result_count'' ?args [])
          = Inr [TextContent ''text''
              (''Query URL: '' @ ?url @ ''\<newline>\<newline>Result count response:\<newline>'' @ ''42'')]"
    by simp
  then show ?thesis
    by (simp add: prod_eq_iff)
qed

text \<open>
  C8, as stated, fails for an argument set without \<open>compilation\<close>: the build-only tool
  then returns the text of the \<open>KeyError\<close>, not a URL.
\<close>

theorem build_only_missing_compilation:
  "call_tool (stub_env 200 ''ok'') ''snaptron_build_url'' [] []
     = (Inr [TextContent ''text'' (''Error: '' @ [CHR 0x27] @ ''compilation'' @ [CHR 0x27])], [])
   \<and> \<not> sublist BASE_URL (''Error: '' @ [CHR 0x27] @ ''compilation'' @ [CHR 0x27])"
  using error_text_no_url
  by (simp add: call_build_url build_url_tool_missing dict_get_def handle_missing_compilation)

text \<open>
  C8, amended. For every argument set the build-only tool requests nothing, and its result
  does not depend on the transport client. When \<open>compilation\<close> is there, it returns the
  built URL followed by a \<open>curl -L\<close> line for the same URL; when not, the text
  \<open>Error: 'compilation'\<close>.
\<close>

theorem build_only_never_fetches:
  "snd (call_tool env ''snaptron_build_url'' arguments reqs) = reqs
   \<and> call_tool env' ''snaptron_build_url'' arguments reqs
       = call_tool env ''snaptron_build_url'' arguments reqs
   \<and> (\<forall>c. dict_get arguments ''compilation'' = Some c \<longrightarrow>
        (\<exists>url. url = build_url c (case dict_get arguments ''endpoint'' of
                                     None \<Rightarrow> VStr ''snaptron'' | Some v \<Rightarrow> v)
                        (extract_params arguments)
           \<and> fst (call_tool env ''snaptron_build_url'' arguments reqs)
               = Inr [TextContent ''text''
                   (''Built Snaptron URL:\<newline>'' @ url
                    @ ''\<newline>\<newline>You can test this with:\<newline>  curl -L ''
                    @ [CHR 0x22] @ url @ [CHR 0x22])]))
   \<and> (dict_get arguments ''compilation'' = None \<longrightarrow>
        fst (call_tool env ''snaptron_build_url'' arguments reqs)
          = Inr [TextContent ''text'' (''Error: '' @ [CHR 0x27] @ ''compilation'' @ [CHR 0x27])])"
proof (intro conjI allI impI)
  show "snd (call_tool env ''snaptron_build_url'' arguments reqs) = reqs"
    by (simp add: call_tool_snd dispatch_def build_url_tool_requests)
  show "call_tool env' ''snaptron_build_url'' arguments reqs
       = call_tool env ''snaptron_build_url'' arguments reqs"
    by (simp add: call_build_url)
next
  fix c assume c: "dict_get arguments ''compilation'' = Some c"
  show "\<exists>url. url = build_url c (case dict_get arguments ''endpoint'' of
                                     None \<Rightarrow> VStr ''snaptron'' | Some v \<Rightarrow> v)
                        (extract_params arguments)
           \<and> fst (call_tool env ''snaptron_build_url'' arguments reqs)
               = Inr [TextContent ''text''
                   (''Built Snaptron URL:\<newline>'' @ url
                    @ ''\<newline>\<newline>You can test this with:\<newline>  curl -L ''
                    @ [CHR 0x22] @ url @ [CHR 0x22])]"
    by (simp add: call_build_url build_url_tool_present [OF c] Let_def)
next
  assume "dict_get arguments ''compilation'' = None"
  then show "fst (call_tool env ''snaptron_build_url'' arguments reqs)
          = Inr [TextContent ''text'' (''Error: '' @ [CHR 0x27] @ ''compilation'' @ [CHR 0x27])]"
    by (simp add: call_build_url build_url_tool_missing handle_missing_compilation)
qed

theorem build_only_never_fetches_witness:
  "call_tool (stub_env 500 ''server error'') ''snaptron_build_url''
       [(''compilation'', VStr ''gtexv2''), (''endpoint'', VStr ''genes''),
        (''regions'', VStr ''BRCA1'')] []
     = (Inr [TextContent ''text''
          (''Built Snaptron URL:\<newline>http://snaptron.cs.jhu.edu/gtexv2/genes?regions=BRCA1''
           @ ''\<newline>\<newline>You can test this with:\<newline>  curl -L '' @ [CHR 0x22]
           @ ''http://snaptron.cs.jhu.edu/gtexv2/genes?regions=BRCA1'' @ [CHR 0x22])], [])"
proof -
  let ?env = "stub_env 500 ''server error''"
  let ?args = "[(''compilation'', VStr ''gtexv2''), (''endpoint'', VStr ''genes''),
        (''regions'', VStr ''BRCA1'')]"
  have c: "dict_get ?args ''compilation'' = Some (VStr ''gtexv2'')"
    by (simp add: dict_get_def)
  have e: "dict_get ?args ''endpoint'' = Some (VStr ''genes'')"
    by (simp add: dict_get_def)
  have p: "extract_params ?args = [(''regions'', VStr ''BRCA1'')]"
    by (simp add: extract_params_def scalar_keys_def copy_filter_def dict_get_def)
  have u: "build_url (VStr ''gtexv2'') (VStr ''genes'') [(''regions'', VStr ''BRCA1'')]
      = ''http://snaptron.cs.jhu.edu/gtexv2/genes?regions=BRCA1''"
    by (simp add: build_url_def BASE_URL_def item_parts_def py_str_def)
  from build_only_never_fetches [of ?env ?args "[]" ?env] c
  show ?thesis
    by (simp add: prod_eq_iff e p u)
qed

text \<open>
  C10, as stated, fails for an argument mapping that lacks \<open>endpoint\<close> and \<open>compilation\<close>
  both: the result is the error text of the missing \<open>compilation\<close>.
\<close>

theorem build_only_missing_endpoint_and_compilation:
  "call_tool (stub_env 200 ''ok'') ''snaptron_build_url'' [(''regions'', VStr ''BRCA1'')] []
     = (Inr [TextContent ''text'' (''Error: '' @ [CHR 0x27] @ ''compilation'' @ [CHR 0x27])], [])
   \<and> dict_get [(''regions'', VStr ''BRCA1'')] ''endpoint'' = None
   \<and> \<not> sublist BASE_URL (''Error: '' @ [CHR 0x27] @ ''compilation'' @ [CHR 0x27])"
  using error_text_no_url
  by (simp add: call_build_url build_url_tool_missing dict_get_def handle_missing_compilation)

text \<open>
  C10, amended. When the arguments of the build-only tool have \<open>compilation\<close> and lack
  \<open>endpoint\<close>, the URL is built for the endpoint \<open>snaptron\<close> and returned, as if
  \<open>endpoint\<close> had been given as \<open>snaptron\<close>.
\<close>

theorem build_only_default_endpoint:
  assumes "dict_get arguments ''endpoint'' = None"
    and "dict_get arguments ''compilation'' = Some c"
  shows "(\<exists>url. url = build_url c (VStr ''snaptron'') (extract_params arguments)
           \<and> call_tool env ''snaptron_build_url'' arguments reqs
               = (Inr [TextContent ''text''
                    (''Built Snaptron URL:\<newline>'' @ url
                     @ ''\<newline>\<newline>You can test this with:\<newline>  curl -L ''
                     @ [CHR 0x22] @ url @ [CHR 0x22])], reqs))
       \<and> call_tool env ''snaptron_build_url'' arguments reqs
           = call_tool env ''snaptron_build_url''
               (arguments @ [(''endpoint'', VStr ''snaptron'')]) reqs"
proof -
  let ?args' = "arguments @ [(''endpoint'', VStr ''snaptron'')]"
  have c': "dict_get ?args' ''compilation'' = Some c"
    by (simp add: dict_get_append_new assms(2))
  have e': "dict_get ?args' ''endpoint'' = Some (VStr ''snaptron'')"
    by (simp add: dict_get_append_new assms(1))
  have "\<forall>k \<in> set key_order. dict_get ?args' k = dict_get arguments k"
    by (auto simp: dict_get_append_new key_order_def scalar_keys_def split: option.split)
  then have p: "extract_params ?args' = extract_params arguments"
    by (rule extract_params_cong)
  show ?thesis
    by (simp add: call_build_url build_url_tool_present [OF assms(2)]
        build_url_tool_present [OF c'] assms(1) e' p Let_def)
qed

theorem build_only_default_endpoint_witness:
  "call_tool (stub_env 200 ''ok'') ''snaptron_build_url''
       [(''compilation'', VStr ''gtexv2''), (''regions'', VStr ''BRCA1'')] []
     = (Inr [TextContent ''text''
          (''Built Snaptron URL:\<newline>http://snaptron.cs.jhu.edu/gtexv2/snaptron?regions=BRCA1''
           @ ''\<newline>\<newline>You can test this with:\<newline>  curl -L '' @ [CHR 0x22]
           @ ''http://snaptron.cs.jhu.edu/gtexv2/snaptron?regions=BRCA1'' @ [CHR 0x22])], [])"
proof -
  let ?args = "[(''compilation'', VStr ''gtexv2''), (''regions'', VStr ''BRCA1'')]"
  have e: "dict_get ?args ''endpoint'' = None"
    by (simp add: dict_get_def)
  have c: "dict_get ?args ''compilation'' = Some (VStr ''gtexv2'')"
    by (simp add: dict_get_def)
  have p: "extract_params ?args = [(''regions'', VStr ''BRCA1'')]"
    by (simp add: extract_params_def scalar_keys_def copy_filter_def dict_get_def)
  have u: "build_url (VStr ''gtexv2'') (VStr ''snaptron'') [(''regions'', VStr ''BRCA1'')]
      = ''http://snaptron.cs.jhu.edu/gtexv2/snaptron?regions=BRCA1''"
    by (simp add: build_url_def BASE_URL_def item_parts_def py_str_def)
  from build_only_default_endpoint [OF e c, of "stub_env 200 ''ok''" "[]"]
  show ?thesis
    by (simp add: p u)
qed

text \<open>
  C9. The keys of \<open>extract_params\<close> follow the fixed order regions, ids, sids, contains,
  exact, either, header, fields, rfilter, sfilter. Two argument mappings with the same
  key-value pairs, in whatever order, give the same parameters, the same URL and the same
  outcome of \<open>call_tool\<close> for every tool.
\<close>

theorem url_independent_of_argument_order:
  "map fst (extract_params a) =
     [k \<leftarrow> [''regions'', ''ids'', ''sids'', ''contains'', ''exact'', ''either'', ''header'',
            ''fields'', ''rfilter'', ''sfilter'']. k \<in> fst ` set (extract_params a)]
   \<and> (distinct (map fst a) \<longrightarrow> distinct (map fst b) \<longrightarrow> set a = set b \<longrightarrow>
        extract_params a = extract_params b
        \<and> build_url c e (extract_params a) = build_url c e (extract_params b)
        \<and> call_tool env name a reqs = call_tool env name b reqs)"
proof (intro conjI impI)
  show "map fst (extract_params a) =
     [k \<leftarrow> [''regions'', ''ids'', ''sids'', ''contains'', ''exact'', ''either'', ''header'',
            ''fields'', ''rfilter'', ''sfilter'']. k \<in> fst ` set (extract_params a)]"
    using extract_params_order [of a] by (simp add: key_order_def scalar_keys_def)
next
  assume "distinct (map fst a)" and "distinct (map fst b)" and "set a = set b"
  then have "map_of a = map_of b"
    by (simp add: map_of_inject_set)
  then have same: "dict_get a k = dict_get b k" for k
    by (simp add: dict_get_def)
  then show p: "extract_params a = extract_params b"
    by (intro extract_params_cong) simp
  then show "build_url c e (extract_params a) = build_url c e (extract_params b)"
    by simp
  from same show "call_tool env name a reqs = call_tool env name b reqs"
    by (intro call_tool_cong) simp
qed

theorem url_independent_of_argument_order_witness:
  "call_tool (stub_env 200 ''ok'') ''snaptron_build_url''
       [(''rfilter'', VList [VStr ''samples_count>:5'']), (''compilation'', VStr ''gtexv2''),
        (''regions'', VStr ''BRCA1'')] []
   = call_tool (stub_env 200 ''ok'') ''snaptron_build_url''
       [(''compilation'', VStr ''gtexv2''), (''regions'', VStr ''BRCA1''),
        (''rfilter'', VList [VStr ''samples_count>:5''])] []
   \<and> map fst (extract_params
       [(''rfilter'', VList [VStr ''samples_count>:5'']), (''compilation'', VStr ''gtexv2''),
        (''regions'', VStr ''BRCA1'')]) = [''regions'', ''rfilter'']"
proof -
  let ?a = "[(''rfilter'', VList [VStr ''samples_count>:5'']), (''compilation'', VStr ''gtexv2''),
        (''regions'', VStr ''BRCA1'')]"
  let ?b = "[(''compilation'', VStr ''gtexv2''), (''regions'', VStr ''BRCA1''),
        (''rfilter'', VList [VStr ''samples_count>:5''])]"
  have da: "distinct (map fst ?a)" and db: "distinct (map fst ?b)" by simp_all
  have s: "set ?a = set ?b" by auto
  have k: "map fst (extract_params ?a) = [''regions'', ''rfilter'']"
    by (simp add: extract_params_def scalar_keys_def copy_filter_def dict_get_def)
  from url_independent_of_argument_order [of ?a ?b _ _ "stub_env 200 ''ok''" "''snaptron_build_url''" "[]"]
    da db s
  have "call_tool (stub_env 200 ''ok'') ''snaptron_build_url'' ?a []
      = call_tool (stub_env 200 ''ok'') ''snaptron_build_url'' ?b []"
    by blast
  then show ?thesis
    using k by simp
qed

text \<open>
  C3, as stated, fails: the code strips the response as a whole and then splits it, and
  does not trim the lines. A line of one space inside the response is counted by the
  code and not by the count that splits first and trims each line.
\<close>

theorem record_count_line_trimming:
  "count_records (''DataSource:Type'' @ [CHR 0x09] @ ''snaptron_id\<newline>r1\<newline> \<newline>r2'') = 3
   \<and> spec_summarize (''DataSource:Type'' @ [CHR 0x09] @ ''snaptron_id\<newline>r1\<newline> \<newline>r2'') = 2"
  by code_simp

text \<open>
  C3, amended. The count of the record-returning tools is the number of lines of the
  stripped response (stripped as a whole, then split on newline, the lines not trimmed)
  that are not empty and do not start with the marker. It is the count of splitting first
  and trimming each line whenever no line of the response has whitespace around it. It is
  0 for the empty response, 0 for a response of marker lines only, and 3 for one marker
  line, three data lines and a blank line at the end. The three tools write this count
  into their result.
\<close>

theorem record_count_whole_text_stripped:
  "count_records txt
     = length [l \<leftarrow> split_nl (strip txt). l \<noteq> [] \<and> \<not> startswith l ''DataSource'']
   \<and> ((\<forall>l \<in> set (split_nl txt). strip l = l) \<longrightarrow> count_records txt = spec_summarize txt)
   \<and> count_records [] = 0
   \<and> count_records (''DataSource:Type'' @ [CHR 0x09] @ ''snaptron_id\<newline>DataSource:Type''
        @ [CHR 0x09] @ ''chromosome\<newline>'') = 0
   \<and> count_records (''DataSource:Type'' @ [CHR 0x09] @ ''snaptron_id\<newline>GTEx:I''
        @ [CHR 0x09] @ ''1\<newline>GTEx:I'' @ [CHR 0x09] @ ''2\<newline>GTEx:I'' @ [CHR 0x09]
        @ ''3\<newline>\<newline>'') = 3
   \<and> ((name, ep) \<in> set [(''snaptron_query_junctions'', ''snaptron''),
          (''snaptron_query_genes'', ''genes''), (''snaptron_query_samples'', ''samples'')] \<longrightarrow>
        dict_get arguments ''compilation'' = Some c \<longrightarrow>
        http_get env (build_url c (VStr ep) (extract_params arguments)) = Response st body \<longrightarrow>
        200 \<le> st \<longrightarrow> st \<le> 299 \<longrightarrow>
        fst (call_tool env name arguments reqs)
          = Inr [TextContent ''text''
              (''Query URL: '' @ build_url c (VStr ep) (extract_params arguments)
               @ ''\<newline>\<newline>Results ('' @ show_nat (count_records body)
               @ '' records):\<newline>\<newline>'' @ body)])"
proof -
  have a: "count_records txt
     = length [l \<leftarrow> split_nl (strip txt). l \<noteq> [] \<and> \<not> startswith l ''DataSource'']"
    by (simp add: count_records_def Let_def)
  have b: "(\<forall>l \<in> set (split_nl txt). strip l = l) \<longrightarrow> count_records txt = spec_summarize txt"
    using count_records_agrees by blast
  have c0: "count_records [] = 0"
    by code_simp
  have c1: "count_records (''DataSource:Type'' @ [CHR 0x09] @ ''snaptron_id\<newline>DataSource:Type''
        @ [CHR 0x09] @ ''chromosome\<newline>'') = 0"
    by code_simp
  have c3: "count_records (''DataSource:Type'' @ [CHR 0x09] @ ''snaptron_id\<newline>GTEx:I''
        @ [CHR 0x09] @ ''1\<newline>GTEx:I'' @ [CHR 0x09] @ ''2\<newline>GTEx:I'' @ [CHR 0x09]
        @ ''3\<newline>\<newline>'') = 3"
    by code_simp
  have d: "fst (call_tool env name arguments reqs)
          = Inr [TextContent ''text''
              (''Query URL: '' @ build_url c (VStr ep) (extract_params arguments)
               @ ''\<newline>\<newline>Results ('' @ show_nat (count_records body)
               @ '' records):\<newline>\<newline>'' @ body)]"
    if n: "(name, ep) \<in> set [(''snaptron_query_junctions'', ''snaptron''),
          (''snaptron_query_genes'', ''genes''), (''snaptron_query_samples'', ''samples'')]"
      and p: "dict_get arguments ''compilation'' = Some c"
      and g: "http_get env (build_url c (VStr ep) (extract_params arguments)) = Response st body"
      and lo: "200 \<le> st" and hi: "st \<le> 299"
    using fetch_success [OF g lo hi, of reqs]
    by (simp add: call_query_tool [OF n] query_records_present [OF p] Let_def)
  show ?thesis
    using a b c0 c1 c3 d by blast
qed

theorem record_count_whole_text_stripped_witness:
  "count_records ''DataSource:Type\<newline>r1\<newline>r2\<newline>r3\<newline>'' = 3
   \<and> spec_summarize ''DataSource:Type\<newline>r1\<newline>r2\<newline>r3\<newline>'' = 3
   \<and> call_tool (stub_env 200 ''DataSource:Type\<newline>r1\<newline>r2\<newline>r3\<newline>'')
        ''snaptron_query_genes'' [(''compilation'', VStr ''gtexv2''), (''regions'', VStr ''BRCA1'')] []
      = (Inr [TextContent ''text''
           ''Query URL: http://snaptron.cs.jhu.edu/gtexv2/genes?regions=BRCA1\<newline>\<newline>Results (3 records):\<newline>\<newline>DataSource:Type\<newline>r1\<newline>r2\<newline>r3\<newline>''],
         [''http://snaptron.cs.jhu.edu/gtexv2/genes?regions=BRCA1''])"
proof -
  let ?body = "''DataSource:Type\<newline>r1\<newline>r2\<newline>r3\<newline>''"
  let ?env = "stub_env 200 ?body"
  let ?args = "[(''compilation'', VStr ''gtexv2''), (''regions'', VStr ''BRCA1'')]"
  let ?url = "''http://snaptron.cs.jhu.edu/gtexv2/genes?regions=BRCA1''"
  have lines: "\<forall>l \<in> set (split_nl ?body). strip l = l"
    by code_simp
  have s: "spec_summarize ?body = 3"
    by code_simp
  have n: "(''snaptron_query_genes'', ''genes'') \<in> set [(''snaptron_query_junctions'', ''snaptron''),
          (''snaptron_query_genes'', ''genes''), (''snaptron_query_samples'', ''samples'')]"
    by simp
  have c: "dict_get ?args ''compilation'' = Some (VStr ''gtexv2'')"
    by (simp add: dict_get_def)
  have u: "build_url (VStr ''gtexv2'') (VStr ''genes'') (extract_params ?args) = ?url"
    by (simp add: build_url_def BASE_URL_def extract_params_def scalar_keys_def copy_filter_def
        dict_get_def item_parts_def py_str_def)
  have g: "http_get ?env (build_url (VStr ''gtexv2'') (VStr ''genes'') (extract_params ?args))
      = Response 200 ?body"
    by (simp add: stub_env_def stub_reply_def)
  have three: "show_nat 3 = ''3''"
    by code_simp
  have f: "fetch ?env ?url [] = (Inr ?body, [?url])"
    by (simp add: fetch_def stub_env_def stub_reply_def)
  have r: "snd (call_tool ?env ''snaptron_query_genes'' ?args []) = [?url]"
    by (simp add: call_tool_snd dispatch_def query_records_present [OF c] u f Let_def)
  note inst = record_count_whole_text_stripped [of ?body "''snaptron_query_genes''" "''genes''"
      ?args "VStr ''gtexv2''" ?env 200 ?body "[]"]
  from inst lines have cs: "count_records ?body = spec_summarize ?body"
    by blast
  from inst n c g have "fst (call_tool ?env ''snaptron_query_genes'' ?args [])
      = Inr [TextContent ''text''
          (''Query URL: '' @ build_url (VStr ''gtexv2'') (VStr ''genes'') (extract_params ?args)
           @ ''\<newline>\<newline>Results ('' @ show_nat (count_records ?body)
           @ '' records):\<newline>\<newline>'' @ ?body)]"
    by simp
  with cs s r show ?thesis
    by (simp add: u three prod_eq_iff)
qed

end
